theory Spec2Isabelle
  imports Main "HOL-Library.Sublist"
begin

section \<open>Strings of the C++ standard library\<close>

text \<open>
  A \<open>std::string\<close> and a \<open>std::vector<char>\<close> are byte lists. The functions below are
  the standard-library calls the server makes, on lists: positions are offsets from the
  start, \<open>npos\<close> is \<open>None\<close>.
\<close>

definition CRLF :: string where
  "CRLF = [CHR 0x0D, CHR 0x0A]"

definition CRLFCRLF :: string where
  "CRLFCRLF = [CHR 0x0D, CHR 0x0A, CHR 0x0D, CHR 0x0A]"

text \<open>
  \<open>std::search(first, last, s_first, s_last)\<close>, as the offset of the returned iterator
  from \<open>first\<close>: the first offset at which the pattern occurs in the range, the length
  of the range (\<open>last\<close>) when it does not occur, and \<open>first\<close> for an empty pattern.
\<close>

fun std_search :: "string \<Rightarrow> string \<Rightarrow> nat" where
  "std_search [] pat = 0"
| "std_search (x # xs) pat = (if prefix pat (x # xs) then 0 else Suc (std_search xs pat))"

text \<open>\<open>data.find(pat, p)\<close>: the first position at or after \<open>p\<close> where \<open>pat\<close> occurs.\<close>

definition string_find :: "string \<Rightarrow> string \<Rightarrow> nat \<Rightarrow> nat option" where
  "string_find data pat p =
     (if length data < p then None
      else if std_search (drop p data) pat < length data - p \<or> pat = []
           then Some (p + std_search (drop p data) pat)
           else None)"

text \<open>\<open>line.find(c)\<close> for a single character.\<close>

fun find_char :: "string \<Rightarrow> char \<Rightarrow> nat option" where
  "find_char [] c = None"
| "find_char (x # xs) c = (if x = c then Some 0 else map_option Suc (find_char xs c))"

text \<open>\<open>s.substr(p, n)\<close> and \<open>s.substr(p)\<close>, for \<open>p\<close> within the string (every call of the
  source is).\<close>

definition substr :: "string \<Rightarrow> nat \<Rightarrow> nat \<Rightarrow> string" where
  "substr s p n = take n (drop p s)"

definition substr_from :: "string \<Rightarrow> nat \<Rightarrow> string" where
  "substr_from s p = drop p s"

text \<open>\<open>s.find_first_not_of(cs)\<close> and \<open>s.find_last_not_of(cs)\<close>.\<close>

fun find_first_not_of :: "string \<Rightarrow> string \<Rightarrow> nat option" where
  "find_first_not_of [] cs = None"
| "find_first_not_of (x # xs) cs =
     (if x \<in> set cs then map_option Suc (find_first_not_of xs cs) else Some 0)"

definition find_last_not_of :: "string \<Rightarrow> string \<Rightarrow> nat option" where
  "find_last_not_of s cs =
     (case find_first_not_of (rev s) cs of
        None \<Rightarrow> None
      | Some i \<Rightarrow> Some (length s - 1 - i))"

text \<open>\<open>std::tolower\<close> in the C locale, on an \<open>unsigned char\<close>.\<close>

definition tolower :: "char \<Rightarrow> char" where
  "tolower c =
     (if (65::nat) \<le> of_char c \<and> of_char c \<le> (90::nat)
      then char_of (of_char c + (32::nat)) else c)"

section \<open>The socket\<close>

text \<open>
  What the descriptor will deliver: the results of the successive \<open>read()\<close> calls, in
  order. \<open>Data bs\<close> is bytes that have arrived together, \<open>ReadFail\<close> a call that returns
  \<open>-1\<close>; when the list is exhausted the peer has closed and \<open>read()\<close> returns \<open>0\<close>.
  A call with room for \<open>n\<close> bytes takes at most \<open>n\<close> of the bytes that have arrived and
  leaves the rest for the next call.
\<close>

datatype read_result = Data string | ReadFail

type_synonym socket = "read_result list"

datatype error =
    ReadError            \<comment> \<open>\<open>runtime_error("Read error")\<close>\<close>
  | ShortRead            \<comment> \<open>\<open>runtime_error("Short read")\<close>\<close>
  | InvalidChunkSize     \<comment> \<open>\<open>runtime_error("Invalid chunk size")\<close>\<close>
  | InvalidHttpFormat    \<comment> \<open>\<open>runtime_error("Invalid HTTP format")\<close>\<close>
  | LengthError          \<comment> \<open>\<open>std::length_error\<close> of \<open>resize\<close> and \<open>reserve\<close>\<close>
  | BadAlloc             \<comment> \<open>\<open>std::bad_alloc\<close> of \<open>reserve\<close>\<close>
  | InvalidArgument      \<comment> \<open>\<open>std::invalid_argument\<close> of \<open>std::stoul\<close>\<close>
  | OutOfRange           \<comment> \<open>\<open>std::out_of_range\<close> of \<open>std::stoul\<close>\<close>

section \<open>HttpReader\<close>

text \<open>
  The reader's fields, named as in the source without the trailing underscore.
  \<open>bufsize\<close> is \<open>buffer_.size()\<close>, fixed at construction; \<open>buffer\<close> holds the
  \<open>bufflen_\<close> bytes the last \<open>read()\<close> stored at the front of the vector (the bytes
  behind them are never read: every access is to \<open>[pos_, bufflen_)\<close>), so \<open>bufflen\<close> is
  its length.
\<close>

record HttpReader =
  fd :: socket
  bufsize :: nat
  buffer :: string
  pos :: nat

definition bufflen :: "HttpReader \<Rightarrow> nat" where
  "bufflen r = length (buffer r)"

definition DEFAULT_BUFSIZE :: nat where
  "DEFAULT_BUFSIZE = 16 * 1024"

definition HttpReader_init :: "socket \<Rightarrow> nat \<Rightarrow> HttpReader" where
  "HttpReader_init sock buf_size = \<lparr>fd = sock, bufsize = buf_size, buffer = [], pos = 0\<rparr>"

text \<open>\<open>refill_buffer\<close>: one \<open>read()\<close> with room for \<open>buffer_.size()\<close> bytes, the cursor reset.\<close>

definition refill_buffer :: "HttpReader \<Rightarrow> error + HttpReader" where
  "refill_buffer r =
     (case fd r of
        [] \<Rightarrow> Inr (r\<lparr>buffer := [], pos := 0\<rparr>)
      | ReadFail # rest \<Rightarrow> Inl ReadError
      | Data bs # rest \<Rightarrow>
          Inr (r\<lparr>fd := (if length bs \<le> bufsize r then rest
                         else Data (drop (bufsize r) bs) # rest),
                 buffer := take (bufsize r) bs,
                 pos := 0\<rparr>))"

text \<open>The head of both read loops: \<open>if (pos_ >= buffer_.size()) refill_buffer();\<close>\<close>

definition refill_if_needed :: "HttpReader \<Rightarrow> error + HttpReader" where
  "refill_if_needed r = (if bufsize r \<le> pos r then refill_buffer r else Inr r)"

text \<open>The bytes \<open>[start, start + remaining)\<close> of the buffer.\<close>

definition unread :: "HttpReader \<Rightarrow> string" where
  "unread r = take (bufflen r - pos r) (drop (pos r) (buffer r))"

text \<open>What is still to come from the descriptor, for the termination of \<open>read_until\<close>.\<close>

fun pending :: "socket \<Rightarrow> nat" where
  "pending [] = 0"
| "pending (ReadFail # rest) = Suc (pending rest)"
| "pending (Data bs # rest) = Suc (length bs + pending rest)"

function read_until_loop :: "HttpReader \<Rightarrow> string \<Rightarrow> string \<Rightarrow> error + HttpReader \<times> string" where
  "read_until_loop r delimiter result =
     (case refill_if_needed r of
        Inl e \<Rightarrow> Inl e
      | Inr r1 \<Rightarrow>
          if bufsize r \<le> pos r \<and> bufflen r1 = 0 then Inr (r1, result)
          else if std_search (unread r1) delimiter \<noteq> length (unread r1)
          then Inr (r1\<lparr>pos := pos r1 + (std_search (unread r1) delimiter + length delimiter)\<rparr>,
                    result @ take (std_search (unread r1) delimiter + length delimiter)
                                  (drop (pos r1) (buffer r1)))
          else read_until_loop (r1\<lparr>pos := bufsize r1\<rparr>) delimiter (result @ unread r1))"
  by pat_completeness auto
termination
proof (relation "measure (\<lambda>(r, d, res). 2 * pending (fd r) + (if pos r < bufsize r then 1 else 0))")
  show "wf (measure (\<lambda>(r, d, res). 2 * pending (fd r) + (if pos r < bufsize r then 1 else 0)))"
    by simp
next
  fix r :: HttpReader and delimiter result :: string and r1 :: HttpReader
  assume a: "refill_if_needed r = Inr r1"
    and b: "\<not> (bufsize r \<le> pos r \<and> bufflen r1 = 0)"
  show "((r1\<lparr>pos := bufsize r1\<rparr>, delimiter, result @ unread r1), (r, delimiter, result))
        \<in> measure (\<lambda>(r, d, res). 2 * pending (fd r) + (if pos r < bufsize r then 1 else 0))"
  proof (cases "bufsize r \<le> pos r")
    case False
    with a have "r1 = r" by (simp add: refill_if_needed_def)
    with False show ?thesis by simp
  next
    case True
    with a have rf: "refill_buffer r = Inr r1" by (simp add: refill_if_needed_def)
    from True b have ne: "buffer r1 \<noteq> []" by (simp add: bufflen_def)
    from rf ne have "pending (fd r1) < pending (fd r)"
      by (auto simp: refill_buffer_def split: list.splits read_result.splits if_splits)
    with True show ?thesis by simp
  qed
qed

declare read_until_loop.simps [simp del]

definition read_until :: "HttpReader \<Rightarrow> string \<Rightarrow> error + HttpReader \<times> string" where
  "read_until r delimiter = read_until_loop r delimiter []"

text \<open>
  \<open>read_fixed\<close>. The loop has no bound of its own, so it is a partial function: \<open>None\<close>
  is a call that never returns. \<open>result.reserve(length)\<close> runs before the loop. It throws
  \<open>std::length_error\<close> beyond \<open>max_size()\<close>, which is \<open>PTRDIFF_MAX\<close> for a
  \<open>vector<char>\<close> on a 64-bit target, and \<open>std::bad_alloc\<close> when the allocator refuses
  the request. A request of \<open>2^56\<close> bytes or more is refused on every 64-bit target, whose
  user address space is smaller; whether a smaller request is granted depends on the
  memory of the machine, and the model grants it.
\<close>

definition vector_max_size :: nat where
  "vector_max_size = 2 ^ 63 - 1"

definition address_space :: nat where
  "address_space = 2 ^ 56"

definition read_fixed_result :: "HttpReader \<Rightarrow> nat \<Rightarrow> string \<Rightarrow> error + HttpReader \<times> string" where
  "read_fixed_result r len result = (if length result \<noteq> len then Inl ShortRead else Inr (r, result))"

partial_function (option) read_fixed_loop ::
  "HttpReader \<Rightarrow> nat \<Rightarrow> string \<Rightarrow> (error + HttpReader \<times> string) option" where
  "read_fixed_loop r len result =
     (if length result < len then
        (case refill_if_needed r of
           Inl e \<Rightarrow> Some (Inl e)
         | Inr r1 \<Rightarrow>
             if bufsize r \<le> pos r \<and> bufflen r1 = 0 then Some (read_fixed_result r1 len result)
             else read_fixed_loop
                    (r1\<lparr>pos := pos r1 + min (bufflen r1 - pos r1) (len - length result)\<rparr>) len
                    (result @ take (min (bufflen r1 - pos r1) (len - length result))
                                   (drop (pos r1) (buffer r1))))
      else Some (read_fixed_result r len result))"

declare read_fixed_loop.simps [code]

definition read_fixed :: "HttpReader \<Rightarrow> nat \<Rightarrow> (error + HttpReader \<times> string) option" where
  "read_fixed r len =
     (if vector_max_size < len then Some (Inl LengthError)
      else if address_space \<le> len then Some (Inl BadAlloc)
      else read_fixed_loop r len [])"

section \<open>std::stoul\<close>

text \<open>
  \<open>std::stoul(str, nullptr, base)\<close> is \<open>strtoul\<close> with its two failures turned into
  exceptions: leading white space is skipped, one sign is accepted, base 16 accepts a
  \<open>0x\<close> or \<open>0X\<close> before a hexadecimal digit, the longest run of digits of the base is
  read and everything behind it is ignored. No digit is \<open>std::invalid_argument\<close>, a
  magnitude beyond \<open>ULONG_MAX\<close> is \<open>std::out_of_range\<close>, and a minus sign negates the
  value in \<open>unsigned long\<close> (64 bits). Only bases 10 and 16 are used.
\<close>

definition isspace :: "char \<Rightarrow> bool" where
  "isspace c = (c = CHR '' '' \<or> c = CHR 0x09 \<or> c = CHR 0x0A \<or> c = CHR 0x0B
                \<or> c = CHR 0x0C \<or> c = CHR 0x0D)"

definition digit_of :: "char \<Rightarrow> nat" where
  "digit_of c =
     (if (48::nat) \<le> of_char c \<and> of_char c \<le> (57::nat) then of_char c - 48
      else if (97::nat) \<le> of_char c \<and> of_char c \<le> (122::nat) then of_char c - 87
      else if (65::nat) \<le> of_char c \<and> of_char c \<le> (90::nat) then of_char c - 55
      else 36)"

definition is_digit :: "nat \<Rightarrow> char \<Rightarrow> bool" where
  "is_digit base c = (digit_of c < base)"

definition ULONG_MAX :: nat where
  "ULONG_MAX = 2 ^ 64 - 1"

fun skip_sign :: "string \<Rightarrow> bool \<times> string" where
  "skip_sign [] = (False, [])"
| "skip_sign (c # cs) =
     (if c = CHR ''-'' then (True, cs) else if c = CHR ''+'' then (False, cs) else (False, c # cs))"

fun skip_0x :: "nat \<Rightarrow> string \<Rightarrow> string" where
  "skip_0x base (z # x # d # cs) =
     (if base = 16 \<and> z = CHR ''0'' \<and> (x = CHR ''x'' \<or> x = CHR ''X'') \<and> is_digit 16 d
      then d # cs else z # x # d # cs)"
| "skip_0x base cs = cs"

definition digits_value :: "nat \<Rightarrow> string \<Rightarrow> nat" where
  "digits_value base ds = foldl (\<lambda>a c. a * base + digit_of c) 0 ds"

definition stoul :: "string \<Rightarrow> nat \<Rightarrow> error + nat" where
  "stoul str base =
     (case skip_sign (dropWhile isspace str) of
        (neg, s) \<Rightarrow>
          if takeWhile (is_digit base) (skip_0x base s) = [] then Inl InvalidArgument
          else if ULONG_MAX < digits_value base (takeWhile (is_digit base) (skip_0x base s))
          then Inl OutOfRange
          else if neg
          then Inr ((2 ^ 64 - digits_value base (takeWhile (is_digit base) (skip_0x base s))) mod 2 ^ 64)
          else Inr (digits_value base (takeWhile (is_digit base) (skip_0x base s))))"

section \<open>Chunked bodies\<close>

text \<open>
  \<open>read_chunked\<close>. \<open>line.resize(line.size() - 2)\<close> on a line shorter than two bytes asks for
  a size near \<open>2^64\<close> and throws \<open>std::length_error\<close>, outside the \<open>try\<close> block; inside it,
  every exception of \<open>std::stoul\<close> becomes "Invalid chunk size".
\<close>

partial_function (option) read_chunked_loop ::
  "HttpReader \<Rightarrow> string \<Rightarrow> (error + HttpReader \<times> string) option" where
  "read_chunked_loop r body =
     (case read_until r CRLF of
        Inl e \<Rightarrow> Some (Inl e)
      | Inr (r1, line) \<Rightarrow>
          if length line < 2 then Some (Inl LengthError)
          else
            (case stoul (take (length line - 2) line) 16 of
               Inl e \<Rightarrow> Some (Inl InvalidChunkSize)
             | Inr chunk_size \<Rightarrow>
                 if chunk_size = 0 then
                   (case read_until r1 CRLF of
                      Inl e \<Rightarrow> Some (Inl e)
                    | Inr (r2, trailer) \<Rightarrow> Some (Inr (r2, body)))
                 else
                   (case read_fixed r1 chunk_size of
                      None \<Rightarrow> None
                    | Some (Inl e) \<Rightarrow> Some (Inl e)
                    | Some (Inr (r2, chunk)) \<Rightarrow>
                        (case read_until r2 CRLF of
                           Inl e \<Rightarrow> Some (Inl e)
                         | Inr (r3, sep) \<Rightarrow> read_chunked_loop r3 (body @ chunk)))))"

declare read_chunked_loop.simps [code]

definition read_chunked :: "HttpReader \<Rightarrow> (error + HttpReader \<times> string) option" where
  "read_chunked r = read_chunked_loop r []"

section \<open>HttpMessage\<close>

record HttpMessage =
  start_line :: string
  headers :: "string \<rightharpoonup> string"
  body :: string

definition HttpMessage_init :: HttpMessage where
  "HttpMessage_init = \<lparr>start_line = [], headers = Map.empty, body = []\<rparr>"

definition parse_start_line :: "string \<Rightarrow> HttpMessage \<Rightarrow> error + HttpMessage" where
  "parse_start_line data msg =
     (case string_find data CRLF 0 of
        None \<Rightarrow> Inl InvalidHttpFormat
      | Some e \<Rightarrow> Inr (msg\<lparr>start_line := substr data 0 e\<rparr>))"

text \<open>
  The two \<open>erase\<close> calls of \<open>parse_headers\<close>. \<open>key.erase(key.find_last_not_of(" \t") + 1)\<close>
  keeps the bytes before the given position, and \<open>npos + 1\<close> is \<open>0\<close>;
  \<open>value.erase(0, value.find_first_not_of(" \t"))\<close> drops that many bytes from the front,
  all of them for \<open>npos\<close>.
\<close>

definition blanks :: string where
  "blanks = [CHR '' '', CHR 0x09]"

definition erase_key :: "string \<Rightarrow> string" where
  "erase_key key =
     (case find_last_not_of key blanks of
        None \<Rightarrow> take 0 key
      | Some i \<Rightarrow> take (i + 1) key)"

definition erase_value :: "string \<Rightarrow> string" where
  "erase_value v =
     (case find_first_not_of v blanks of
        None \<Rightarrow> []
      | Some i \<Rightarrow> drop i v)"

text \<open>One header line with its colon at \<open>colon\<close>: the body of the loop from
  \<open>std::string key\<close> to \<open>msg.headers[key] = value\<close>.\<close>

definition header_key :: "string \<Rightarrow> nat \<Rightarrow> string" where
  "header_key line colon = erase_key (map tolower (substr line 0 colon))"

definition header_value :: "string \<Rightarrow> nat \<Rightarrow> string" where
  "header_value line colon = erase_value (substr_from line (colon + 1))"

definition store_header :: "string \<Rightarrow> nat \<Rightarrow> HttpMessage \<Rightarrow> HttpMessage" where
  "store_header line colon msg =
     msg\<lparr>headers := (headers msg)(header_key line colon \<mapsto> header_value line colon)\<rparr>"

text \<open>
  The loop of \<open>parse_headers\<close>, on the position \<open>start\<close>. \<open>continue\<close> goes back to the
  loop test with \<open>start\<close> as it is. The loop is a partial function: \<open>None\<close> is a call that
  never returns.
\<close>

partial_function (option) parse_headers_loop ::
  "string \<Rightarrow> nat \<Rightarrow> HttpMessage \<Rightarrow> HttpMessage option" where
  "parse_headers_loop data start msg =
     (if start < length data then
        (case string_find data CRLF start of
           None \<Rightarrow> Some msg
         | Some e \<Rightarrow>
             if substr data start (e - start) = [] then Some msg
             else
               (case find_char (substr data start (e - start)) (CHR '':'') of
                  None \<Rightarrow> parse_headers_loop data start msg
                | Some colon \<Rightarrow>
                    parse_headers_loop data (e + 2)
                      (store_header (substr data start (e - start)) colon msg)))
      else Some msg)"

declare parse_headers_loop.simps [code]

text \<open>\<open>size_t start = data.find("\r\n") + 2\<close>; \<open>npos + 2\<close> is \<open>1\<close> in \<open>size_t\<close>.\<close>

definition parse_headers :: "string \<Rightarrow> HttpMessage \<Rightarrow> HttpMessage option" where
  "parse_headers data msg =
     (case string_find data CRLF 0 of
        None \<Rightarrow> parse_headers_loop data 1 msg
      | Some e \<Rightarrow> parse_headers_loop data (e + 2) msg)"

text \<open>Step 2 of \<open>HttpMessage::parse\<close>: the body, chosen from the headers.\<close>

definition parse_body :: "HttpReader \<Rightarrow> HttpMessage \<Rightarrow> (error + HttpMessage) option" where
  "parse_body reader msg =
     (case headers msg ''transfer-encoding'' of
        Some te \<Rightarrow>
          if te = ''chunked'' then
            (case read_chunked reader of
               None \<Rightarrow> None
             | Some (Inl e) \<Rightarrow> Some (Inl e)
             | Some (Inr (r, b)) \<Rightarrow> Some (Inr (msg\<lparr>body := b\<rparr>)))
          else Some (Inr msg)
      | None \<Rightarrow>
          (case headers msg ''content-length'' of
             Some cl \<Rightarrow>
               (case stoul cl 10 of
                  Inl e \<Rightarrow> Some (Inl e)
                | Inr len \<Rightarrow>
                    (case read_fixed reader len of
                       None \<Rightarrow> None
                     | Some (Inl e) \<Rightarrow> Some (Inl e)
                     | Some (Inr (r, b)) \<Rightarrow> Some (Inr (msg\<lparr>body := b\<rparr>))))
           | None \<Rightarrow> Some (Inr msg)))"

definition parse :: "socket \<Rightarrow> (error + HttpMessage) option" where
  "parse sock =
     (case read_until (HttpReader_init sock DEFAULT_BUFSIZE) CRLFCRLF of
        Inl e \<Rightarrow> Some (Inl e)
      | Inr (reader, headers_str) \<Rightarrow>
          (case parse_start_line headers_str HttpMessage_init of
             Inl e \<Rightarrow> Some (Inl e)
           | Inr msg1 \<Rightarrow>
               (case parse_headers headers_str msg1 of
                  None \<Rightarrow> None
                | Some msg2 \<Rightarrow> parse_body reader msg2)))"

section \<open>Responses\<close>

text \<open>\<open>std::to_string\<close> of a \<open>size_t\<close> and of an \<open>int\<close>.\<close>

function to_string :: "nat \<Rightarrow> string" where
  "to_string n =
     (if n < 10 then [char_of (48 + n)]
      else to_string (n div 10) @ [char_of (48 + n mod 10)])"
  by pat_completeness auto
termination
  by (relation "measure id") auto

declare to_string.simps [simp del]

definition to_string_int :: "int \<Rightarrow> string" where
  "to_string_int i = (if i < 0 then CHR ''-'' # to_string (nat (- i)) else to_string (nat i))"



text \<open>
  The sending side of the descriptor: \<open>peer k\<close> is the result of the \<open>k\<close>-th call of
  \<open>send()\<close> on it. \<open>Accepts n\<close> is a call that takes up to \<open>n\<close> of the bytes offered and
  returns their number (\<open>0\<close> when \<open>n\<close> is \<open>0\<close>), \<open>SendFail\<close> a call that returns \<open>-1\<close>.
\<close>

datatype send_result = Accepts nat | SendFail

type_synonym peer = "nat \<Rightarrow> send_result"

text \<open>
  \<open>send_all\<close>, from the \<open>k\<close>-th call of \<open>send()\<close> on: whether all of \<open>data\<close> was sent,
  the number of calls made so far, and \<open>total_sent\<close>. It returns false, without throwing,
  when \<open>send()\<close> returns \<open>-1\<close> or \<open>0\<close>.
\<close>

function send_all_loop :: "peer \<Rightarrow> nat \<Rightarrow> string \<Rightarrow> nat \<Rightarrow> bool \<times> nat \<times> nat" where
  "send_all_loop p k data total_sent =
     (if total_sent < length data then
        (case p k of
           SendFail \<Rightarrow> (False, Suc k, total_sent)
         | Accepts n \<Rightarrow>
             if min n (length data - total_sent) = 0 then (False, Suc k, total_sent)
             else send_all_loop p (Suc k) data (total_sent + min n (length data - total_sent)))
      else (True, k, total_sent))"
  by pat_completeness auto
termination
  by (relation "measure (\<lambda>(p, k, data, total_sent). length data - total_sent)") auto

declare send_all_loop.simps [simp del]

definition send_all :: "peer \<Rightarrow> nat \<Rightarrow> string \<Rightarrow> bool \<times> nat \<times> nat" where
  "send_all p k data = send_all_loop p k data 0"

text \<open>
  \<open>TCPServer::handle_connection\<close>, as the bytes the descriptor has accepted when the
  handler returns. After a parsed request it sends the header block and, only if
  \<open>send_all\<close> returned true for it, the body; a failed send is logged and nothing more is
  sent. After any exception of \<open>parse\<close> it sends the fixed error response, ignoring the
  result. \<open>None\<close> is a handler that never returns.
\<close>

definition response_headers :: "string \<Rightarrow> string" where
  "response_headers body_to_send =
     ''HTTP/1.1 200 OK'' @ CRLF
     @ ''Content-Type: text/plain'' @ CRLF
     @ ''Content-Length: '' @ to_string (length body_to_send) @ CRLF
     @ ''Connection: close'' @ CRLF @ CRLF"

definition error_response :: string where
  "error_response =
     ''HTTP/1.1 500 Internal Server Error'' @ CRLF
     @ ''Content-Length: 0'' @ CRLF
     @ ''Connection: close'' @ CRLF @ CRLF"

definition send_response :: "peer \<Rightarrow> string \<Rightarrow> string \<Rightarrow> string" where
  "send_response p hdrs body_to_send =
     (case send_all p 0 hdrs of
        (ok1, k1, n1) \<Rightarrow>
          if \<not> ok1 then take n1 hdrs
          else (case send_all p k1 body_to_send of
                  (ok2, k2, n2) \<Rightarrow> hdrs @ take n2 body_to_send))"

definition send_error_response :: "peer \<Rightarrow> string" where
  "send_error_response p =
     (case send_all p 0 error_response of (ok, k, n) \<Rightarrow> take n error_response)"

definition handle_connection :: "socket \<Rightarrow> peer \<Rightarrow> string option" where
  "handle_connection client_fd p =
     (case parse client_fd of
        None \<Rightarrow> None
      | Some (Inl e) \<Rightarrow> Some (send_error_response p)
      | Some (Inr request) \<Rightarrow>
          Some (send_response p (response_headers (body request)) (body request)))"


section \<open>MultiThreadedTCPServer\<close>

text \<open>The constructor: the members it initialises, or the exception it throws.\<close>

record MultiThreadedTCPServer =
  server_fd :: int
  port :: int
  num_threads :: nat
  client_queue :: "int list"
  stop_requested :: bool

datatype config_error = InvalidNumberOfThreads

definition MultiThreadedTCPServer_init :: "int \<Rightarrow> nat \<Rightarrow> config_error + MultiThreadedTCPServer" where
  "MultiThreadedTCPServer_init p threads =
     (if (if 0 < threads then threads else 4) = 0 then Inl InvalidNumberOfThreads
      else Inr \<lparr>server_fd = - 1, port = p,
                num_threads = (if 0 < threads then threads else 4),
                client_queue = [], stop_requested = False\<rparr>)"

section \<open>States from which a loop cannot return\<close>

text \<open>
  \<open>starved\<close>: \<open>read_fixed\<close> still needs bytes, the buffer holds no unread byte, and the
  cursor is below \<open>buffer_.size()\<close>, so the loop head does not refill.
  \<open>line_without_colon\<close>: \<open>parse_headers\<close> stands at a non-empty line that has no colon.
\<close>

definition starved :: "HttpReader \<Rightarrow> nat \<Rightarrow> string \<Rightarrow> bool" where
  "starved r len result = (pos r < bufsize r \<and> bufflen r \<le> pos r \<and> length result < len)"

definition line_without_colon :: "string \<Rightarrow> nat \<Rightarrow> bool" where
  "line_without_colon data start =
     (start < length data \<and>
      (case string_find data CRLF start of
         None \<Rightarrow> False
       | Some e \<Rightarrow> substr data start (e - start) \<noteq> []
                   \<and> find_char (substr data start (e - start)) (CHR '':'') = None))"

section \<open>The response form of the specification\<close>

text \<open>
  The form the specification gives for a response, in its words: status line, the three
  header lines, a blank line and the body, with the length of the body as
  \<open>Content-Length\<close>. The handler's responses are compared with it.
\<close>

definition response_form :: "int \<Rightarrow> string \<Rightarrow> string \<Rightarrow> string" where
  "response_form status reason content =
     ''HTTP/1.1 '' @ to_string_int status @ '' '' @ reason @ CRLF
     @ ''Content-Type: text/plain'' @ CRLF
     @ ''Content-Length: '' @ to_string (length content) @ CRLF
     @ ''Connection: close'' @ CRLF @ CRLF @ content"

section \<open>Header blocks, for stating what parse_headers stores\<close>

text \<open>
  A header block as the parser expects it: a first line, then lines that each contain a
  colon and no line feed, each followed by CRLF, then an empty line. \<open>stored_key\<close> and
  \<open>stored_value\<close> say, without positions, what the parser keeps of such a line: of the
  text before the first colon, lowercased, everything up to its last non-blank byte; of
  the text after the first colon, everything from its first non-blank byte on.
\<close>

definition is_blank :: "char \<Rightarrow> bool" where
  "is_blank c = (c = CHR '' '' \<or> c = CHR 0x09)"

definition stored_key :: "string \<Rightarrow> string" where
  "stored_key line =
     rev (dropWhile is_blank (rev (map tolower (takeWhile (\<lambda>c. c \<noteq> CHR '':'') line))))"

definition stored_value :: "string \<Rightarrow> string" where
  "stored_value line = dropWhile is_blank (tl (dropWhile (\<lambda>c. c \<noteq> CHR '':'') line))"

definition add_header :: "(string \<rightharpoonup> string) \<Rightarrow> string \<Rightarrow> (string \<rightharpoonup> string)" where
  "add_header h l = h(stored_key l \<mapsto> stored_value l)"

definition header_block :: "string \<Rightarrow> string list \<Rightarrow> string" where
  "header_block first_line lines = first_line @ CRLF @ concat (map (\<lambda>l. l @ CRLF) lines) @ CRLF"

definition header_line :: "string \<Rightarrow> bool" where
  "header_line l = (CHR '':'' \<in> set l \<and> CHR 0x0A \<notin> set l)"

section \<open>The cursor and the buffered bytes\<close>

text \<open>
  What holds of a reader between calls: the buffered bytes fit the buffer, and the
  cursor is within them or at \<open>buffer_.size()\<close>, where the next read refills first. So
  \<open>bufflen_ - pos_\<close> is never computed with \<open>pos_\<close> beyond \<open>bufflen_\<close>, and the
  subtraction in \<open>size_t\<close> does not wrap.
\<close>

definition reader_inv :: "HttpReader \<Rightarrow> bool" where
  "reader_inv r = (bufflen r \<le> bufsize r \<and> (pos r \<le> bufflen r \<or> pos r = bufsize r))"

section \<open>Evaluation\<close>

lemmas stoul_defs = stoul_def isspace_def is_digit_def digit_of_def digits_value_def ULONG_MAX_def

lemmas reader_defs = read_until_def read_until_loop.simps refill_buffer_def HttpReader_init_def DEFAULT_BUFSIZE_def CRLF_def CRLFCRLF_def
  refill_if_needed_def unread_def bufflen_def read_fixed_def read_fixed_result_def
  vector_max_size_def address_space_def read_chunked_def

lemmas parse_defs = parse_def parse_start_line_def string_find_def substr_def substr_from_def
  HttpMessage_init_def parse_headers_def parse_headers_loop.simps store_header_def header_key_def
  header_value_def erase_key_def erase_value_def blanks_def find_last_not_of_def tolower_def
  char_of_def bit_iff_odd_drop_bit parse_body_def

section \<open>The cursor stays within the buffered bytes\<close>

lemma reader_inv_init: "reader_inv (HttpReader_init sock n)"
  by (simp add: reader_inv_def HttpReader_init_def bufflen_def)

lemma refill_buffer_inv: "refill_buffer r = Inr r1 \<Longrightarrow> reader_inv r1 \<and> bufsize r1 = bufsize r"
  by (auto simp: refill_buffer_def reader_inv_def bufflen_def split: list.splits read_result.splits)

lemma refill_if_needed_inv:
  "refill_if_needed r = Inr r1 \<Longrightarrow> reader_inv r \<Longrightarrow>
     reader_inv r1 \<and> bufsize r1 = bufsize r \<and> pos r1 \<le> bufflen r1"
  by (auto simp: refill_if_needed_def reader_inv_def refill_buffer_def bufflen_def
      split: if_splits list.splits read_result.splits)

lemma std_search_found: "std_search xs d \<noteq> length xs \<Longrightarrow> std_search xs d + length d \<le> length xs"
  by (induction xs) (auto split: if_splits dest: prefix_length_le)

lemma read_until_loop_inv:
  "read_until_loop r d res = Inr (r', out) \<Longrightarrow> reader_inv r \<Longrightarrow> reader_inv r'"
proof (induction r d res rule: read_until_loop.induct)
  case (1 r delimiter result)
  from "1.prems"(1) obtain r1 where r1: "refill_if_needed r = Inr r1"
    by (subst (asm) read_until_loop.simps) (auto split: sum.splits)
  note i1 = refill_if_needed_inv[OF r1 "1.prems"(2)]
  show ?case
  proof (cases "bufsize r \<le> pos r \<and> bufflen r1 = 0")
    case True
    with "1.prems"(1) r1 i1 show ?thesis
      by (subst (asm) read_until_loop.simps) auto
  next
    case False
    show ?thesis
    proof (cases "std_search (unread r1) delimiter \<noteq> length (unread r1)")
      case True
      from std_search_found[OF True] i1 have "pos r1 + (std_search (unread r1) delimiter + length delimiter) \<le> bufflen r1"
        by (auto simp: unread_def bufflen_def)
      with "1.prems"(1) r1 i1 False True show ?thesis
        by (subst (asm) read_until_loop.simps) (auto simp: reader_inv_def bufflen_def)
    next
      case nf: False
      have "reader_inv (r1\<lparr>pos := bufsize r1\<rparr>)"
        using i1 by (simp add: reader_inv_def bufflen_def)
      moreover from "1.prems"(1) r1 False nf
      have "read_until_loop (r1\<lparr>pos := bufsize r1\<rparr>) delimiter (result @ unread r1) = Inr (r', out)"
        by (subst (asm) read_until_loop.simps) auto
      ultimately show ?thesis
        using "1.IH"[OF r1 False] nf by simp
    qed
  qed
qed

lemma read_fixed_loop_inv:
  assumes a: "read_fixed_loop r len result = Some y"
  shows "reader_inv r \<longrightarrow> (case y of Inl e \<Rightarrow> True | Inr (r', out) \<Rightarrow> reader_inv r')"
proof (rule read_fixed_loop.raw_induct
    [where P = "\<lambda>r len result y. reader_inv r \<longrightarrow> (case y of Inl e \<Rightarrow> True | Inr (r', out) \<Rightarrow> reader_inv r')",
     OF _ a], goal_cases)
  case (1 f r len result y)
  show ?case
  proof
    assume inv: "reader_inv r"
    show "case y of Inl e \<Rightarrow> True | Inr (r', out) \<Rightarrow> reader_inv r'"
    proof (cases "length result < len")
      case False
      with 1(2) inv show ?thesis by (auto simp: read_fixed_result_def split: if_splits)
    next
      case True
      show ?thesis
      proof (cases "refill_if_needed r")
        case (Inl e)
        with 1(2) True show ?thesis by auto
      next
        case (Inr r1)
        note i1 = refill_if_needed_inv[OF Inr inv]
        show ?thesis
        proof (cases "bufsize r \<le> pos r \<and> bufflen r1 = 0")
          case True
          with 1(2) \<open>length result < len\<close> Inr i1 show ?thesis
            by (auto simp: read_fixed_result_def split: if_splits)
        next
          case False
          have "reader_inv (r1\<lparr>pos := pos r1 + min (bufflen r1 - pos r1) (len - length result)\<rparr>)"
            using i1 by (auto simp: reader_inv_def bufflen_def)
          with 1(1) 1(2) \<open>length result < len\<close> Inr False show ?thesis
            by auto
        qed
      qed
    qed
  qed
qed

lemmas send_defs = send_all_def send_all_loop.simps send_response_def send_error_response_def

section \<open>Loops that do not return\<close>

lemma read_fixed_loop_returns:
  assumes a: "read_fixed_loop r len result = Some y"
  shows "\<not> starved r len result"
proof (rule read_fixed_loop.raw_induct
    [where P = "\<lambda>r len result y. \<not> starved r len result", OF _ a], goal_cases)
  case (1 f r len result y)
  show ?case
  proof
    assume st: "starved r len result"
    then have "r\<lparr>pos := pos r + min (bufflen r - pos r) (len - length result)\<rparr> = r"
      by (simp add: starved_def)
    with st 1(2) have "f r len result = Some y"
      by (simp add: starved_def refill_if_needed_def)
    from 1(1)[OF this] st show False by simp
  qed
qed

lemma read_fixed_loop_starved:
  "starved r len result \<Longrightarrow> read_fixed_loop r len result = None"
  using read_fixed_loop_returns by (cases "read_fixed_loop r len result") auto

lemma read_fixed_fresh:
  "0 < buf_size \<Longrightarrow> 0 < n \<Longrightarrow> n < address_space \<Longrightarrow>
   read_fixed (HttpReader_init sock buf_size) n = None"
  by (simp add: read_fixed_def read_fixed_loop_starved starved_def HttpReader_init_def bufflen_def
      vector_max_size_def address_space_def)

lemma parse_headers_loop_returns:
  assumes a: "parse_headers_loop data start msg = Some y"
  shows "\<not> line_without_colon data start"
proof (rule parse_headers_loop.raw_induct
    [where P = "\<lambda>data start msg y. \<not> line_without_colon data start", OF _ a], goal_cases)
  case (1 f data start msg y)
  show ?case
  proof
    assume st: "line_without_colon data start"
    with 1(2) have "f data start msg = Some y"
      by (auto simp: line_without_colon_def split: option.splits)
    from 1(1)[OF this] st show False by simp
  qed
qed

lemma parse_headers_loop_stuck:
  "line_without_colon data start \<Longrightarrow> parse_headers_loop data start msg = None"
  using parse_headers_loop_returns by (cases "parse_headers_loop data start msg") auto

section \<open>What parse_headers leaves alone\<close>

lemma parse_headers_loop_keeps:
  assumes a: "parse_headers_loop data start msg = Some m"
  shows "body m = body msg \<and> start_line m = start_line msg"
proof (rule parse_headers_loop.raw_induct
    [where P = "\<lambda>data start msg m. body m = body msg \<and> start_line m = start_line msg", OF _ a],
    goal_cases)
  case (1 f data start msg m)
  from 1(2) show ?case
    by (auto split: if_splits option.splits simp: store_header_def dest!: 1(1))
qed

lemma parse_headers_keeps:
  "parse_headers data msg = Some m \<Longrightarrow> body m = body msg \<and> start_line m = start_line msg"
  by (auto simp: parse_headers_def split: option.splits dest: parse_headers_loop_keeps)

lemma parsed_body_empty:
  assumes "parse_start_line headers_str HttpMessage_init = Inr msg1"
    and "parse_headers headers_str msg1 = Some msg"
  shows "body msg = []"
proof -
  from assms(1) have "body msg1 = []"
    by (auto simp: parse_start_line_def HttpMessage_init_def split: option.splits)
  with parse_headers_keeps[OF assms(2)] show ?thesis by simp
qed


section \<open>What parse_headers stores\<close>

lemma length_CRLF: "length CRLF = 2"
  by (simp add: CRLF_def)

lemma std_search_line: "CHR 0x0A \<notin> set l \<Longrightarrow> std_search (l @ CRLF @ t) CRLF = length l"
proof (induction l)
  case Nil
  show ?case by (simp add: CRLF_def)
next
  case (Cons x xs)
  then have "\<not> prefix CRLF ((x # xs) @ CRLF @ t)"
    by (cases xs) (auto simp: CRLF_def)
  with Cons show ?case by simp
qed

lemma string_find_line:
  assumes "CHR 0x0A \<notin> set l"
  shows "string_find (pre @ l @ CRLF @ t) CRLF (length pre) = Some (length pre + length l)"
  using std_search_line[OF assms, of t] by (simp add: string_find_def)

lemma substr_line: "substr (pre @ l @ t) (length pre) (length l) = l"
  by (simp add: substr_def)

lemma find_char_takeWhile:
  "c \<in> set l \<Longrightarrow> find_char l c = Some (length (takeWhile (\<lambda>x. x \<noteq> c) l))"
  by (induction l) auto

lemma find_first_not_of_takeWhile:
  "find_first_not_of s cs =
     (if \<forall>c\<in>set s. c \<in> set cs then None else Some (length (takeWhile (\<lambda>c. c \<in> set cs) s)))"
  by (induction s) auto

lemma in_blanks: "(c \<in> set blanks) = is_blank c"
  by (auto simp: blanks_def is_blank_def)

lemma takeWhile_shorter:
  assumes "c \<in> set s" and "\<not> keep c"
  shows "length (takeWhile keep s) < length s"
  using assms by (induction s) auto

lemma dropWhile_all_Nil: "\<forall>c\<in>set v. P c \<Longrightarrow> [] = dropWhile P v"
  by (induction v) auto

lemma erase_value_dropWhile: "erase_value v = dropWhile is_blank v"
proof (cases "\<forall>c\<in>set v. is_blank c")
  case True
  then show ?thesis
    by (simp add: erase_value_def find_first_not_of_takeWhile in_blanks dropWhile_all_Nil)
next
  case False
  then show ?thesis
    by (auto simp: erase_value_def find_first_not_of_takeWhile in_blanks dropWhile_eq_drop)
qed

lemma erase_key_dropWhile: "erase_key k = rev (dropWhile is_blank (rev k))"
proof (cases "\<forall>c\<in>set k. is_blank c")
  case True
  then show ?thesis
    by (simp add: erase_key_def find_last_not_of_def find_first_not_of_takeWhile in_blanks)
next
  case False
  from False obtain c where "c \<in> set (rev k)" and "\<not> is_blank c"
    by auto
  then have "length (takeWhile is_blank (rev k)) < length k"
    using takeWhile_shorter[of c "rev k" is_blank] by simp
  with False show ?thesis
    by (auto simp: erase_key_def find_last_not_of_def find_first_not_of_takeWhile in_blanks
        dropWhile_eq_drop rev_drop Suc_diff_Suc)
qed

lemma header_key_stored:
  "header_key l (length (takeWhile (\<lambda>x. x \<noteq> CHR '':'') l)) = stored_key l"
  by (simp add: header_key_def stored_key_def erase_key_dropWhile substr_def takeWhile_eq_take[symmetric])

lemma header_value_stored:
  "header_value l (length (takeWhile (\<lambda>x. x \<noteq> CHR '':'') l)) = stored_value l"
  by (simp add: header_value_def stored_value_def erase_value_dropWhile substr_from_def
      dropWhile_eq_drop drop_Suc tl_drop)

lemma parse_headers_loop_lines:
  assumes "list_all header_line lines"
  shows "map_option headers
           (parse_headers_loop (pre @ concat (map (\<lambda>l. l @ CRLF) lines) @ CRLF @ t) (length pre) msg)
         = Some (foldl add_header (headers msg) lines)"
  using assms
proof (induction lines arbitrary: pre msg)
  case Nil
  have "string_find (pre @ [] @ CRLF @ t) CRLF (length pre) = Some (length pre + length ([]::string))"
    by (rule string_find_line) simp
  then show ?case
    by (subst parse_headers_loop.simps) (simp add: substr_def length_CRLF)
next
  case (Cons l ls)
  let ?rest = "concat (map (\<lambda>l. l @ CRLF) ls) @ CRLF @ t"
  let ?data = "pre @ l @ CRLF @ ?rest"
  from Cons.prems have ls: "list_all header_line ls" by simp
  from Cons.prems have l: "CHR '':'' \<in> set l" "CHR 0x0A \<notin> set l"
    by (simp_all add: header_line_def)
  have f: "string_find ?data CRLF (length pre) = Some (length pre + length l)"
    by (rule string_find_line[OF l(2)])
  have s: "substr ?data (length pre) (length l) = l"
    by (rule substr_line)
  have ne: "l \<noteq> []" using l(1) by auto
  have step: "parse_headers_loop ?data (length pre) msg =
      parse_headers_loop ?data (length pre + length l + 2)
        (store_header l (length (takeWhile (\<lambda>x. x \<noteq> CHR '':'') l)) msg)"
    by (subst parse_headers_loop.simps) (simp add: f s ne find_char_takeWhile[OF l(1)] length_CRLF)
  let ?msg' = "store_header l (length (takeWhile (\<lambda>x. x \<noteq> CHR '':'') l)) msg"
  have IH': "map_option headers (parse_headers_loop ?data (length pre + length l + 2) ?msg')
        = Some (foldl add_header (headers ?msg') ls)"
    using Cons.IH[OF ls, of "pre @ l @ CRLF" ?msg'] by (simp add: length_CRLF)
  have hm: "headers ?msg' = add_header (headers msg) l"
    by (simp add: store_header_def header_key_stored header_value_stored add_header_def)
  have "map_option headers
          (parse_headers_loop (pre @ concat (map (\<lambda>l. l @ CRLF) (l # ls)) @ CRLF @ t) (length pre) msg)
        = map_option headers (parse_headers_loop ?data (length pre) msg)"
    by simp
  also have "\<dots> = map_option headers (parse_headers_loop ?data (length pre + length l + 2) ?msg')"
    by (simp only: step)
  also have "\<dots> = Some (foldl add_header (headers ?msg') ls)"
    by (rule IH')
  also have "\<dots> = Some (foldl add_header (headers msg) (l # ls))"
    by (simp only: hm foldl_Cons)
  finally show ?case .
qed

lemma foldl_add_header_other:
  "k \<notin> stored_key ` set ls \<Longrightarrow> foldl add_header h ls k = h k"
  by (induction ls arbitrary: h) (auto simp: add_header_def)

lemma foldl_add_header_last:
  "stored_key l \<notin> stored_key ` set after \<Longrightarrow>
   foldl add_header h (before @ l # after) (stored_key l) = Some (stored_value l)"
  by (simp add: foldl_add_header_other add_header_def)

lemma parse_headers_block:
  assumes "CHR 0x0A \<notin> set first_line" and "list_all header_line lines"
  shows "map_option headers (parse_headers (header_block first_line lines) msg)
         = Some (foldl add_header (headers msg) lines)"
proof -
  have "string_find ([] @ first_line @ CRLF @ concat (map (\<lambda>l. l @ CRLF) lines) @ CRLF) CRLF (length ([]::string))
        = Some (length ([]::string) + length first_line)"
    by (rule string_find_line[OF assms(1)])
  then have "parse_headers (header_block first_line lines) msg =
      parse_headers_loop ((first_line @ CRLF) @ concat (map (\<lambda>l. l @ CRLF) lines) @ CRLF @ [])
         (length (first_line @ CRLF)) msg"
    by (simp add: parse_headers_def header_block_def length_CRLF)
  with parse_headers_loop_lines[OF assms(2), of "first_line @ CRLF" "[]" msg] show ?thesis
    by simp
qed

section \<open>Errors of the read operations\<close>







section \<open>std::stoul on examples\<close>

lemma stoul_examples:
  "stoul ''4'' 16 = Inr 4"
  "stoul ''  1a'' 16 = Inr 26"
  "stoul ''+4'' 16 = Inr 4"
  "stoul ''-1'' 16 = Inr 18446744073709551615"
  "stoul ''0x1F'' 16 = Inr 31"
  "stoul ''0x'' 16 = Inr 0"
  "stoul ''4;name=val'' 16 = Inr 4"
  "stoul ''ffffffffffffffff'' 16 = Inr 18446744073709551615"
  "stoul ''10000000000000000'' 16 = Inl OutOfRange"
  "stoul ''pedia'' 16 = Inl InvalidArgument"
  "stoul [] 16 = Inl InvalidArgument"
  "stoul ''11'' 10 = Inr 11"
  "stoul ''5 '' 10 = Inr 5"
  by (simp_all add: stoul_defs)

section \<open>Reads served from the buffer\<close>

text \<open>
  Where the defects of the refill test do not come into play, the reads do what the
  specification says: \<open>std::search\<close> finds the first occurrence, \<open>read_until\<close> returns
  the unread bytes up to and including a delimiter that lies within them, \<open>read_fixed\<close>
  returns the next \<open>n\<close> unread bytes when the buffer holds as many, and a request that
  arrives in one segment is answered with its body.
\<close>

lemma std_search_first:
  "std_search xs d \<noteq> length xs \<Longrightarrow>
     prefix d (drop (std_search xs d) xs) \<and> (\<forall>j < std_search xs d. \<not> prefix d (drop j xs))"
proof (induction xs)
  case Nil
  then show ?case by simp
next
  case (Cons x xs)
  show ?case
  proof (cases "prefix d (x # xs)")
    case True
    then show ?thesis by simp
  next
    case False
    with Cons.prems have ne: "std_search xs d \<noteq> length xs" by simp
    from Cons.IH[OF ne] False show ?thesis
      by (auto simp: less_Suc_eq_0_disj)
  qed
qed

lemma read_until_in_buffer:
  assumes "pos r < bufsize r" and "std_search (unread r) d \<noteq> length (unread r)"
  shows "read_until r d =
           Inr (r\<lparr>pos := pos r + (std_search (unread r) d + length d)\<rparr>,
                take (std_search (unread r) d + length d) (drop (pos r) (buffer r)))"
  using assms
  by (simp add: read_until_def refill_if_needed_def)
     (subst read_until_loop.simps, simp add: refill_if_needed_def)

lemma read_fixed_in_buffer:
  assumes "0 < n" and "n < address_space" and "pos r < bufsize r" and "pos r + n \<le> bufflen r"
  shows "read_fixed r n = Some (Inr (r\<lparr>pos := pos r + n\<rparr>, take n (drop (pos r) (buffer r))))"
proof -
  have m: "min (length (buffer r) - pos r) n = n"
    using assms by (simp add: bufflen_def)
  have "read_fixed_loop r n [] =
          read_fixed_loop (r\<lparr>pos := pos r + n\<rparr>) n (take n (drop (pos r) (buffer r)))"
    using assms by (subst read_fixed_loop.simps) (simp add: refill_if_needed_def bufflen_def m)
  also have "\<dots> = Some (Inr (r\<lparr>pos := pos r + n\<rparr>, take n (drop (pos r) (buffer r))))"
    by (subst read_fixed_loop.simps) (simp add: m read_fixed_result_def)
  finally show ?thesis
    using assms by (simp add: read_fixed_def vector_max_size_def address_space_def)
qed

lemma end_to_end_in_one_segment:
  "handle_connection [Data (''GET / HTTP/1.1'' @ CRLF @ ''Host: x'' @ CRLF @ CRLF)] (\<lambda>k. Accepts 4096)
     = Some (response_form 200 ''OK'' [])"
  "handle_connection [Data (''POST / HTTP/1.1'' @ CRLF @ ''Content-Length: 11'' @ CRLF @ CRLF
                            @ ''hello world'')] (\<lambda>k. Accepts 4096)
     = Some (response_headers ''hello world'' @ ''hello world'')"
  "handle_connection [Data (''POST / HTTP/1.1'' @ CRLF @ ''Transfer-Encoding: chunked'' @ CRLF @ CRLF
                            @ ''4'' @ CRLF @ ''Wiki'' @ CRLF @ ''5'' @ CRLF @ ''pedia'' @ CRLF
                            @ ''0'' @ CRLF @ CRLF)] (\<lambda>k. Accepts 4096)
     = Some (response_headers ''Wikipedia'' @ ''Wikipedia'')"
  by (simp_all add: handle_connection_def parse_defs reader_defs stoul_defs read_fixed_loop.simps
      read_chunked_loop.simps response_headers_def response_form_def to_string.simps to_string_int_def
      send_defs)

section \<open>What send_all gets onto the descriptor\<close>







section \<open>The claims\<close>

text \<open>
  C1 does not hold of the code. \<open>read_until\<close> searches each refill on its own, so a delimiter
  that lies across two refills is not seen. The stream \<open>a CRLF b CRLF c\<close> has its first
  CRLF at offset 1; delivered as \<open>a CR\<close> and \<open>LF b CRLF c\<close>, the call returns the six
  bytes up to the second CRLF, not the three up to the first. The same happens when the
  stream \<open>abc CRLF xyz CRLF q\<close> arrives whole and a four-byte buffer cuts it after the CR.
\<close>

theorem read_until_delimiter_across_refills:
  "map_sum id snd
     (read_until (HttpReader_init [Data (''a'' @ [CHR 0x0D]),
                                   Data ([CHR 0x0A] @ ''b'' @ CRLF @ ''c'')] DEFAULT_BUFSIZE) CRLF)
     = Inr (''a'' @ CRLF @ ''b'' @ CRLF)
   \<and> map_sum id snd
     (read_until (HttpReader_init [Data (''abc'' @ CRLF @ ''xyz'' @ CRLF @ ''q'')] 4) CRLF)
     = Inr (''abc'' @ CRLF @ ''xyz'' @ CRLF)"
  by (simp add: reader_defs)

text \<open>
  C2 does not hold as stated. The claim's last sentence fails: a request with
  \<open>Transfer-Encoding: gzip\<close> and \<open>Content-Length: 5\<close> followed by \<open>hello\<close> is parsed with
  an empty body, although \<open>read_fixed(5)\<close> at that point would return \<open>hello\<close>.
\<close>

theorem parse_ignores_content_length_counterexample:
  "map_option (map_sum id (\<lambda>m. (headers m ''transfer-encoding'', headers m ''content-length'', body m)))
     (parse [Data (''POST / HTTP/1.1'' @ CRLF @ ''Transfer-Encoding: gzip'' @ CRLF
                   @ ''Content-Length: 5'' @ CRLF @ CRLF @ ''hello'')])
     = Some (Inr (Some ''gzip'', Some ''5'', []))
   \<and> (case read_until (HttpReader_init
              [Data (''POST / HTTP/1.1'' @ CRLF @ ''Transfer-Encoding: gzip'' @ CRLF
                   @ ''Content-Length: 5'' @ CRLF @ CRLF @ ''hello'')] DEFAULT_BUFSIZE) CRLFCRLF of
         Inl e \<Rightarrow> None
       | Inr (reader, headers_str) \<Rightarrow> map_option (map_sum id snd) (read_fixed reader 5))
     = Some (Inr ''hello'')"
  by (simp add: parse_defs reader_defs stoul_defs read_fixed_loop.simps)

text \<open>
  C2, as amended. Once the header block has been read and parsed into \<open>msg\<close>, the body
  of the message that \<open>parse\<close> returns is selected by the headers alone: with a
  \<open>transfer-encoding\<close> header, it is what \<open>read_chunked\<close> produces when the value equals
  \<open>chunked\<close> and empty for any other value, whether or not a \<open>content-length\<close> header is
  present; without one, it is what \<open>read_fixed\<close> produces for the length that
  \<open>std::stoul\<close> reads from the \<open>content-length\<close> header (an exception of \<open>std::stoul\<close>
  is the result when it reads none); without either header it is empty.
\<close>

theorem parse_body_framing:
  assumes "read_until (HttpReader_init sock DEFAULT_BUFSIZE) CRLFCRLF = Inr (reader, headers_str)"
    and "parse_start_line headers_str HttpMessage_init = Inr msg1"
    and "parse_headers headers_str msg1 = Some msg"
  shows "map_option (map_sum id body) (parse sock) =
     (case headers msg ''transfer-encoding'' of
        Some te \<Rightarrow>
          if te = ''chunked'' then map_option (map_sum id snd) (read_chunked reader)
          else Some (Inr [])
      | None \<Rightarrow>
          (case headers msg ''content-length'' of
             Some cl \<Rightarrow>
               (case stoul cl 10 of
                  Inl e \<Rightarrow> Some (Inl e)
                | Inr len \<Rightarrow> map_option (map_sum id snd) (read_fixed reader len))
           | None \<Rightarrow> Some (Inr [])))"
  using assms parsed_body_empty[OF assms(2,3)]
  by (auto simp: parse_def parse_body_def split: option.splits sum.splits)

theorem parse_body_framing_witness:
  "read_until (HttpReader_init
       [Data (''POST / HTTP/1.1'' @ CRLF @ ''Transfer-Encoding: gzip'' @ CRLF
              @ ''Content-Length: 5'' @ CRLF @ CRLF @ ''hello'')] DEFAULT_BUFSIZE) CRLFCRLF
     = Inr (\<lparr>fd = [], bufsize = 16384,
             buffer = ''POST / HTTP/1.1'' @ CRLF @ ''Transfer-Encoding: gzip'' @ CRLF
                      @ ''Content-Length: 5'' @ CRLF @ CRLF @ ''hello'',
             pos = 63\<rparr>,
            ''POST / HTTP/1.1'' @ CRLF @ ''Transfer-Encoding: gzip'' @ CRLF
              @ ''Content-Length: 5'' @ CRLF @ CRLF)
   \<and> parse_start_line (''POST / HTTP/1.1'' @ CRLF @ ''Transfer-Encoding: gzip'' @ CRLF
              @ ''Content-Length: 5'' @ CRLF @ CRLF) HttpMessage_init
     = Inr \<lparr>start_line = ''POST / HTTP/1.1'', headers = Map.empty, body = []\<rparr>
   \<and> parse_headers (''POST / HTTP/1.1'' @ CRLF @ ''Transfer-Encoding: gzip'' @ CRLF
              @ ''Content-Length: 5'' @ CRLF @ CRLF)
         \<lparr>start_line = ''POST / HTTP/1.1'', headers = Map.empty, body = []\<rparr>
     = Some \<lparr>start_line = ''POST / HTTP/1.1'',
             headers = [''transfer-encoding'' \<mapsto> ''gzip'', ''content-length'' \<mapsto> ''5''],
             body = []\<rparr>
   \<and> map_option (map_sum id body)
       (parse [Data (''POST / HTTP/1.1'' @ CRLF @ ''Transfer-Encoding: gzip'' @ CRLF
              @ ''Content-Length: 5'' @ CRLF @ CRLF @ ''hello'')]) = Some (Inr [])"
proof -
  have h1: "read_until (HttpReader_init
       [Data (''POST / HTTP/1.1'' @ CRLF @ ''Transfer-Encoding: gzip'' @ CRLF
              @ ''Content-Length: 5'' @ CRLF @ CRLF @ ''hello'')] DEFAULT_BUFSIZE) CRLFCRLF
     = Inr (\<lparr>fd = [], bufsize = 16384,
             buffer = ''POST / HTTP/1.1'' @ CRLF @ ''Transfer-Encoding: gzip'' @ CRLF
                      @ ''Content-Length: 5'' @ CRLF @ CRLF @ ''hello'',
             pos = 63\<rparr>,
            ''POST / HTTP/1.1'' @ CRLF @ ''Transfer-Encoding: gzip'' @ CRLF
              @ ''Content-Length: 5'' @ CRLF @ CRLF)"
    by (simp add: reader_defs)
  have h2: "parse_start_line (''POST / HTTP/1.1'' @ CRLF @ ''Transfer-Encoding: gzip'' @ CRLF
              @ ''Content-Length: 5'' @ CRLF @ CRLF) HttpMessage_init
     = Inr \<lparr>start_line = ''POST / HTTP/1.1'', headers = Map.empty, body = []\<rparr>"
    by (simp add: parse_defs CRLF_def)
  have h3: "parse_headers (''POST / HTTP/1.1'' @ CRLF @ ''Transfer-Encoding: gzip'' @ CRLF
              @ ''Content-Length: 5'' @ CRLF @ CRLF)
         \<lparr>start_line = ''POST / HTTP/1.1'', headers = Map.empty, body = []\<rparr>
     = Some \<lparr>start_line = ''POST / HTTP/1.1'',
             headers = [''transfer-encoding'' \<mapsto> ''gzip'', ''content-length'' \<mapsto> ''5''],
             body = []\<rparr>"
    by (simp add: parse_defs CRLF_def)
  from parse_body_framing[OF h1 h2 h3] h1 h2 h3 show ?thesis by simp
qed

text \<open>
  C3 does not hold as stated. The value keeps its trailing blanks: the line
  \<open>Content-Length:  5 \<close> is stored under \<open>content-length\<close> with the value \<open>5 \<close>, a
  five and a space.
\<close>

theorem header_value_trailing_blank_counterexample:
  "map_option (\<lambda>m. headers m ''content-length'')
     (parse_headers (''GET / HTTP/1.1'' @ CRLF @ ''Content-Length:  5 '' @ CRLF @ CRLF)
        HttpMessage_init)
   = Some (Some ''5 '')"
  by (simp add: parse_defs CRLF_def)

text \<open>
  C3, as amended. For a header block whose first line has no line feed and whose header
  lines each contain a colon and no line feed, \<open>parse_headers\<close> returns, and the header
  map is the given one updated line by line, in order: each line is stored under the
  text before its first colon, lowercased and with the blanks (spaces and tabs) at its
  end removed, with the value being the text after that colon with the blanks at its
  start removed. Blanks at the start of the key and at the end of the value are kept.
  A line whose key no later line has is the one found under that key: the last
  occurrence of a repeated key wins.
\<close>

theorem parse_headers_stores:
  assumes "CHR 0x0A \<notin> set first_line" and "list_all header_line lines"
  shows "\<exists>m. parse_headers (header_block first_line lines) msg = Some m
           \<and> headers m = foldl add_header (headers msg) lines
           \<and> (\<forall>before l after.
                 lines = before @ l # after \<and> stored_key l \<notin> stored_key ` set after
                 \<longrightarrow> headers m (stored_key l) = Some (stored_value l))"
proof -
  from parse_headers_block[OF assms, of msg]
  obtain m where m: "parse_headers (header_block first_line lines) msg = Some m"
    and h: "headers m = foldl add_header (headers msg) lines"
    by auto
  from h have "\<forall>before l after.
                 lines = before @ l # after \<and> stored_key l \<notin> stored_key ` set after
                 \<longrightarrow> headers m (stored_key l) = Some (stored_value l)"
    by (auto simp: foldl_add_header_last simp del: foldl_append)
  with m h show ?thesis by blast
qed

theorem parse_headers_stores_witness:
  "CHR 0x0A \<notin> set ''GET / HTTP/1.1''
   \<and> list_all header_line [''Content-Length:  5 '', '' X-Tag : a'', ''Host: a'', ''HOST:b'']
   \<and> (\<exists>m. parse_headers
            (header_block ''GET / HTTP/1.1''
               [''Content-Length:  5 '', '' X-Tag : a'', ''Host: a'', ''HOST:b''])
            HttpMessage_init = Some m
          \<and> headers m ''content-length'' = Some ''5 ''
          \<and> headers m '' x-tag'' = Some ''a''
          \<and> headers m ''host'' = Some ''b'')"
proof -
  have h1: "CHR 0x0A \<notin> set ''GET / HTTP/1.1''" by simp
  have h2: "list_all header_line [''Content-Length:  5 '', '' X-Tag : a'', ''Host: a'', ''HOST:b'']"
    by (simp add: header_line_def)
  from parse_headers_stores[OF h1 h2, of HttpMessage_init] h1 h2 show ?thesis
    by (auto simp: add_header_def stored_key_def stored_value_def is_blank_def tolower_def
        HttpMessage_init_def char_of_def bit_iff_odd_drop_bit)
qed

text \<open>
  C4 does not hold as stated. The constructor called with a thread count of zero throws nothing: it
  builds a server with four worker threads.
\<close>

theorem zero_threads_counterexample:
  "MultiThreadedTCPServer_init 8080 0 =
     Inr \<lparr>server_fd = - 1, port = 8080, num_threads = 4, client_queue = [],
          stop_requested = False\<rparr>"
  by (simp add: MultiThreadedTCPServer_init_def)

text \<open>
  C4, as amended. The constructor never throws: it stores the given thread count when
  that is positive and four when it is zero, so the stored count is never zero and the
  constructor's check of it never fires.
\<close>

theorem constructor_never_throws:
  "\<exists>srv. MultiThreadedTCPServer_init p threads = Inr srv
         \<and> num_threads srv = (if threads = 0 then 4 else threads) \<and> 0 < num_threads srv"
  by (simp add: MultiThreadedTCPServer_init_def)

theorem constructor_never_throws_witness:
  "\<exists>srv. MultiThreadedTCPServer_init 8080 2 = Inr srv \<and> num_threads srv = 2"
  using constructor_never_throws[of 8080 2] by auto




text \<open>
  C6 does not hold of the code. \<open>read_fixed\<close> refills only when the cursor has reached
  \<open>buffer_.size()\<close>; with the buffer used up below that size it copies nothing and loops
  for ever. On a new reader \<open>read_fixed(5)\<close> does not return although \<open>hello\<close> is
  available; after a line has been read it does not return when \<open>hello\<close> arrives in the
  next segment; and when the stream ends after \<open>hel\<close> it does not return either, where
  the claim has a short-read error.
\<close>

theorem read_fixed_does_not_return:
  "read_fixed (HttpReader_init [Data ''hello''] DEFAULT_BUFSIZE) 5 = None
   \<and> (case read_until (HttpReader_init [Data (''x'' @ CRLF), Data ''hello''] DEFAULT_BUFSIZE) CRLF of
        Inl e \<Rightarrow> Some (Inl e) | Inr (r, line) \<Rightarrow> read_fixed r 5) = None
   \<and> (case read_until (HttpReader_init [Data (''x'' @ CRLF @ ''hel'')] DEFAULT_BUFSIZE) CRLF of
        Inl e \<Rightarrow> Some (Inl e) | Inr (r, line) \<Rightarrow> read_fixed r 5) = None"
proof (intro conjI)
  show "read_fixed (HttpReader_init [Data ''hello''] DEFAULT_BUFSIZE) 5 = None"
    by (rule read_fixed_fresh) (simp_all add: DEFAULT_BUFSIZE_def address_space_def)
  show "(case read_until (HttpReader_init [Data (''x'' @ CRLF), Data ''hello''] DEFAULT_BUFSIZE) CRLF of
        Inl e \<Rightarrow> Some (Inl e) | Inr (r, line) \<Rightarrow> read_fixed r 5) = None"
    by (simp add: reader_defs read_fixed_loop_starved starved_def)
  show "(case read_until (HttpReader_init [Data (''x'' @ CRLF @ ''hel'')] DEFAULT_BUFSIZE) CRLF of
        Inl e \<Rightarrow> Some (Inl e) | Inr (r, line) \<Rightarrow> read_fixed r 5) = None"
    apply (simp add: reader_defs)
    apply (subst read_fixed_loop.simps)
    apply (simp add: reader_defs read_fixed_loop_starved starved_def)
    done
qed

text \<open>
  C7 does not hold of the code. In \<open>parse_headers\<close> a non-empty line without a colon reaches
  \<open>continue\<close> with \<open>start\<close> unchanged, so the loop reads the same line again for ever:
  parsing the request \<open>GET / HTTP/1.1 CRLF bogus CRLF CRLF\<close> does not return. Nor does
  parsing return when the header block announces five bytes of body and they arrive in
  the next segment: \<open>read_fixed\<close> loops without refilling, as in C6.
\<close>

theorem parse_does_not_return:
  "parse [Data (''GET / HTTP/1.1'' @ CRLF @ ''bogus'' @ CRLF @ CRLF)] = None
   \<and> parse [Data (''POST / HTTP/1.1'' @ CRLF @ ''Content-Length: 5'' @ CRLF @ CRLF),
            Data ''hello''] = None"
proof (intro conjI)
  show "parse [Data (''GET / HTTP/1.1'' @ CRLF @ ''bogus'' @ CRLF @ CRLF)] = None"
    by (simp add: parse_def reader_defs parse_start_line_def string_find_def substr_def
        HttpMessage_init_def parse_headers_def parse_headers_loop_stuck line_without_colon_def)
  show "parse [Data (''POST / HTTP/1.1'' @ CRLF @ ''Content-Length: 5'' @ CRLF @ CRLF),
               Data ''hello''] = None"
    by (simp add: parse_defs reader_defs stoul_defs read_fixed_loop_starved starved_def)
qed

text \<open>
  C9 does not hold of the code. The body \<open>Wiki\<close> is encoded as \<open>4 CRLF Wiki CRLF 0 CRLF CRLF\<close>.
  When the stream arrives as \<open>4 CRLF Wi\<close> and then the rest, \<open>read_chunked\<close> does not
  return (the loop of \<open>read_fixed\<close>, as in C6). When it arrives whole and an eight-byte
  buffer cuts it between the CR and the LF that follow the data, the CRLF is not seen (as
  in C1) and decoding ends with the invalid-chunk-size error.
\<close>

theorem read_chunked_round_trip_fails:
  "read_chunked (HttpReader_init [Data (''4'' @ CRLF @ ''Wi''),
                                  Data (''ki'' @ CRLF @ ''0'' @ CRLF @ CRLF)] DEFAULT_BUFSIZE) = None
   \<and> map_option (map_sum id snd)
       (read_chunked (HttpReader_init [Data (''4'' @ CRLF @ ''Wiki'' @ CRLF @ ''0'' @ CRLF @ CRLF)] 8))
     = Some (Inl InvalidChunkSize)"
proof (intro conjI)
  show "read_chunked (HttpReader_init [Data (''4'' @ CRLF @ ''Wi''),
                                  Data (''ki'' @ CRLF @ ''0'' @ CRLF @ CRLF)] DEFAULT_BUFSIZE) = None"
    apply (simp add: read_chunked_def)
    apply (subst read_chunked_loop.simps)
    apply (simp add: reader_defs stoul_defs)
    apply (subst read_fixed_loop.simps)
    apply (simp add: reader_defs read_fixed_loop_starved starved_def)
    done
  show "map_option (map_sum id snd)
       (read_chunked (HttpReader_init [Data (''4'' @ CRLF @ ''Wiki'' @ CRLF @ ''0'' @ CRLF @ CRLF)] 8))
     = Some (Inl InvalidChunkSize)"
    by (simp add: reader_defs stoul_defs read_chunked_loop.simps read_fixed_loop.simps)
qed



end
